theory Spec2Isabelle
  imports Main "HOL-Library.Word"
begin

unbundle bit_operations_syntax

section \<open>Data model\<close>

text \<open>
  A Python \<open>bytes\<close> object is a list of bytes; each element read from it is an integer
  in \<open>0..255\<close>, obtained here with \<open>uint\<close>. Python integers are unbounded, so the
  accumulators of both checksum functions are modelled as \<open>int\<close>, with the masks of the
  source written out.
\<close>

type_synonym byte = "8 word"

section \<open>The CRC-8 engine (\<open>crc8\<close>)\<close>

text \<open>One pass of the inner loop: the conditional XOR with \<open>0x8380\<close>, then \<open>v5 *= 2\<close>.\<close>

definition crc8_round :: "int \<Rightarrow> int" where
  "crc8_round v5 = (if v5 AND 0x8000 \<noteq> 0 then v5 XOR 0x8380 else v5) * 2"

text \<open>\<open>for _ in range(n)\<close> around a body that only updates the accumulator.\<close>

primrec repeat :: "nat \<Rightarrow> ('a \<Rightarrow> 'a) \<Rightarrow> 'a \<Rightarrow> 'a" where
  "repeat 0 body v = v"
| "repeat (Suc n) body v = repeat n body (body v)"

text \<open>The body of the outer loop: one input byte, eight rounds, one mask to 16 bits.\<close>

definition crc8_step :: "int \<Rightarrow> byte \<Rightarrow> int" where
  "crc8_step v5 b = repeat 8 crc8_round (v5 XOR push_bit 8 (uint b)) AND 0xFFFF"

definition crc8 :: "byte list \<Rightarrow> int" where
  "crc8 data = drop_bit 8 (foldl crc8_step 0 data) AND 0xFF"

subsection \<open>The reference algorithm of the specification\<close>

text \<open>
  The specification describes a 16-bit accumulator that is masked to 16 bits after every
  shift. A \<open>16 word\<close> is exactly that: every operation on it wraps at 16 bits.
\<close>

definition crc8_ref_round :: "16 word \<Rightarrow> 16 word" where
  "crc8_ref_round acc = push_bit 1 (if bit acc 15 then acc XOR 0x8380 else acc)"

definition crc8_ref_step :: "16 word \<Rightarrow> byte \<Rightarrow> 16 word" where
  "crc8_ref_step acc b = repeat 8 crc8_ref_round (acc XOR push_bit 8 (ucast b))"

definition crc8_ref :: "byte list \<Rightarrow> byte" where
  "crc8_ref data = ucast (drop_bit 8 (foldl crc8_ref_step 0 data))"

section \<open>The CRC-32 engine (\<open>crc32\<close>)\<close>

definition crc32_round :: "int \<Rightarrow> int \<Rightarrow> int" where
  "crc32_round poly crc =
     (if crc AND 0x80000000 \<noteq> 0 then push_bit 1 crc XOR poly else push_bit 1 crc)
       AND 0xFFFFFFFF"

definition crc32_step :: "int \<Rightarrow> int \<Rightarrow> byte \<Rightarrow> int" where
  "crc32_step poly crc b = repeat 8 (crc32_round poly) (crc XOR push_bit 24 (uint b))"

definition crc32 :: "byte list \<Rightarrow> int \<Rightarrow> int \<Rightarrow> int \<Rightarrow> int" where
  "crc32 data poly init xorout = foldl (crc32_step poly) init data XOR xorout"

text \<open>The call \<open>crc32(payload)\<close> of the orchestrator, with the default parameters.\<close>

definition crc32_default :: "byte list \<Rightarrow> int" where
  "crc32_default data = crc32 data 0x04C11DB7 0 0"

subsection \<open>The reference algorithm of the specification\<close>

text \<open>
  A 32-bit accumulator, masked after every round, and a masked 32-bit result: all values
  are \<open>32 word\<close>s. Parameters given as Python integers are read into 32 bits.
\<close>

definition crc32_ref_round :: "32 word \<Rightarrow> 32 word \<Rightarrow> 32 word" where
  "crc32_ref_round poly acc =
     (if bit acc 31 then push_bit 1 acc XOR poly else push_bit 1 acc)"

definition crc32_ref_step :: "32 word \<Rightarrow> 32 word \<Rightarrow> byte \<Rightarrow> 32 word" where
  "crc32_ref_step poly acc b =
     repeat 8 (crc32_ref_round poly) (acc XOR push_bit 24 (ucast b))"

definition crc32_ref_word :: "byte list \<Rightarrow> 32 word \<Rightarrow> 32 word \<Rightarrow> 32 word \<Rightarrow> 32 word" where
  "crc32_ref_word data poly init xorout = foldl (crc32_ref_step poly) init data XOR xorout"

definition crc32_ref :: "byte list \<Rightarrow> int \<Rightarrow> int \<Rightarrow> int \<Rightarrow> int" where
  "crc32_ref data poly init xorout =
     uint (crc32_ref_word data (word_of_int poly) (word_of_int init) (word_of_int xorout))"


section \<open>The file object\<close>

text \<open>
  The file is opened with mode \<open>r+b\<close>: it is a byte sequence together with a current
  position. Reading returns the bytes that exist from the position on, at most as many as
  asked for. Writing overwrites in place; a write that starts or ends behind the end of the
  file makes the file longer, and a gap between the old end and the position is filled with
  zero bytes.
\<close>

record file_object =
  content :: "byte list"
  pos :: nat

definition f_open :: "byte list \<Rightarrow> file_object" where
  "f_open disk = \<lparr>content = disk, pos = 0\<rparr>"

definition f_seek :: "nat \<Rightarrow> file_object \<Rightarrow> file_object" where
  "f_seek offset f = f\<lparr>pos := offset\<rparr>"

definition f_read :: "nat \<Rightarrow> file_object \<Rightarrow> byte list \<times> file_object" where
  "f_read n f =
     (let bs = take n (drop (pos f) (content f))
      in (bs, f\<lparr>pos := pos f + length bs\<rparr>))"

text \<open>
  The bytes of a file after \<open>bs\<close> has been written at position \<open>p\<close>. The subtraction
  \<open>p - length c\<close> is on \<open>nat\<close>: it is the size of the gap, and zero when there is none.
\<close>

definition overwrite :: "nat \<Rightarrow> byte list \<Rightarrow> byte list \<Rightarrow> byte list" where
  "overwrite p bs c =
     (if bs = [] then c
      else let padded = c @ replicate (p - length c) 0
           in take p padded @ bs @ drop (p + length bs) padded)"

definition f_write :: "byte list \<Rightarrow> file_object \<Rightarrow> file_object" where
  "f_write bs f = f\<lparr>content := overwrite (pos f) bs (content f), pos := pos f + length bs\<rparr>"

section \<open>Errors, and the conversions that can raise\<close>

text \<open>
  The three \<open>ValueError\<close>s raised by the orchestrator itself, the \<open>struct.error\<close> of
  \<open>struct.unpack\<close> and \<open>struct.pack\<close>, and the \<open>ValueError\<close> of \<open>bytes([x])\<close> for
  \<open>x\<close> outside \<open>range(256)\<close>.
\<close>

datatype error =
    HeaderTooSmall
  | PayloadSizeTooSmall
  | PayloadTruncated
  | StructError
  | BytesRangeError

datatype outcome = Success | Failed error

definition bytes_of :: "int list \<Rightarrow> error + byte list" where
  "bytes_of xs =
     (if list_all (\<lambda>x. 0 \<le> x \<and> x < 256) xs then Inr (map word_of_int xs)
      else Inl BytesRangeError)"

text \<open>\<open>struct.unpack('>H', bs)[0]\<close>: exactly two bytes, most significant first.\<close>

definition unpack_be_u16 :: "byte list \<Rightarrow> error + nat" where
  "unpack_be_u16 bs =
     (case bs of
        [hi, lo] \<Rightarrow> Inr (unat hi * 256 + unat lo)
      | _ \<Rightarrow> Inl StructError)"

text \<open>\<open>struct.pack('<I', v)\<close>: four bytes, least significant first, for \<open>0 \<le> v < 2^32\<close>.\<close>

definition le_u32 :: "int \<Rightarrow> byte list" where
  "le_u32 v = [word_of_int v, word_of_int (drop_bit 8 v),
               word_of_int (drop_bit 16 v), word_of_int (drop_bit 24 v)]"

definition pack_le_u32 :: "int \<Rightarrow> error + byte list" where
  "pack_le_u32 v = (if 0 \<le> v \<and> v < 2 ^ 32 then Inr (le_u32 v) else Inl StructError)"

section \<open>The patch orchestrator (\<open>fix_firmware_checksum\<close>)\<close>

text \<open>
  The function is applied to a file that exists and can be opened; its argument here is
  the content of that file. The body of the \<open>with\<close> block comes in two parts. Every
  exception leaves the block, which closes the file; what is on disk then is the content
  of the file object at that moment. The result is the outcome that is printed
  (\<open>Checksums fixed successfully\<close> or \<open>Error: ...\<close>) and the bytes on disk afterwards.

  First part (lines 61 to 69): the header is read, checked for its length, and its CRC-8
  written at offset \<open>0x1F\<close>.
\<close>

definition fix_header_crc8 :: "file_object \<Rightarrow> error + file_object" where
  "fix_header_crc8 f0 =
     (let (header, f1) = f_read 0x1F (f_seek 0 f0) in
      if length header < 0x1F then Inl HeaderTooSmall
      else
     (let crc8_checksum = crc8 header;
          f2 = f_seek 0x1F f1 in
      case bytes_of [crc8_checksum] of
        Inl e \<Rightarrow> Inl e
      | Inr b \<Rightarrow> Inr (f_write b f2)))"

text \<open>
  Second part (lines 71 to 91): the payload descriptor is read from the file object as it
  is after the CRC-8 byte has been written; then the payload is read and its CRC-32
  written behind it.
\<close>

definition fix_payload_crc32 :: "file_object \<Rightarrow> outcome \<times> byte list" where
  "fix_payload_crc32 f3 =
     (let (raw_offset, f4) = f_read 2 (f_seek 0x4 f3) in
      case unpack_be_u16 raw_offset of
        Inl e \<Rightarrow> (Failed e, content f4)
      | Inr payload_offset \<Rightarrow>
     (let (raw_size, f5) = f_read 2 f4 in
      case unpack_be_u16 raw_size of
        Inl e \<Rightarrow> (Failed e, content f5)
      | Inr payload_size \<Rightarrow>
      if payload_size < 4 then (Failed PayloadSizeTooSmall, content f5)
      else
     (let (payload, f6) = f_read (payload_size - 4) (f_seek payload_offset f5) in
      if length payload \<noteq> payload_size - 4 then (Failed PayloadTruncated, content f6)
      else
     (let crc32_checksum = crc32_default payload;
          f7 = f_seek (payload_offset + payload_size - 4) f6 in
      case pack_le_u32 crc32_checksum of
        Inl e \<Rightarrow> (Failed e, content f7)
      | Inr packed \<Rightarrow> (Success, content (f_write packed f7))))))"

definition fix_firmware_checksum :: "byte list \<Rightarrow> outcome \<times> byte list" where
  "fix_firmware_checksum disk =
     (case fix_header_crc8 (f_open disk) of
        Inl e \<Rightarrow> (Failed e, disk)
      | Inr f3 \<Rightarrow> fix_payload_crc32 f3)"

subsection \<open>Notions used to state the properties\<close>

text \<open>The payload descriptor as the header declares it: offset and size, from bytes 4 to 7.\<close>

definition payload_descriptor :: "byte list \<Rightarrow> (nat \<times> nat) option" where
  "payload_descriptor disk =
     (case (unpack_be_u16 (take 2 (drop 4 disk)), unpack_be_u16 (take 2 (drop 6 disk))) of
        (Inr payload_offset, Inr payload_size) \<Rightarrow> Some (payload_offset, payload_size)
      | _ \<Rightarrow> None)"


text \<open>
  The bytes on disk once the CRC-8 of the header has been written at offset \<open>0x1F\<close>,
  for a file that holds the 31 header bytes.
\<close>

definition header_written :: "byte list \<Rightarrow> byte list" where
  "header_written disk = overwrite 0x1F [word_of_int (crc8 (take 0x1F disk))] disk"

subsection \<open>Sample firmware files\<close>

text \<open>
  A well-formed file of 40 bytes: the payload region \<open>[0x20, 0x28)\<close> lies behind the
  header and inside the file.
\<close>

definition sample_well_formed :: "byte list" where
  "sample_well_formed = [0, 0, 0, 0, 0, 0x20, 0, 8] @ replicate 32 7"

text \<open>
  The same header on a file that ends at \<open>0x24\<close>: the four bytes of payload data are
  there, the CRC-32 slot \<open>[0x24, 0x28)\<close> is not.
\<close>

definition sample_slot_past_end :: "byte list" where
  "sample_slot_past_end = [0, 0, 0, 0, 0, 0x20, 0, 8] @ replicate 28 7"

text \<open>
  A file of 32 bytes whose header declares the payload region \<open>[0x08, 0x10)\<close>: the
  CRC-32 slot \<open>[0x0C, 0x10)\<close> is part of the header.
\<close>

definition sample_slot_in_header :: "byte list" where
  "sample_slot_in_header = [0, 0, 0, 0, 0, 8, 0, 8, 1, 0, 0, 0] @ replicate 20 0"

text \<open>
  A file of 40 bytes whose payload data \<open>[0x1C, 0x24)\<close> contains offset \<open>0x1F\<close>.
\<close>

definition sample_payload_over_crc8 :: "byte list" where
  "sample_payload_over_crc8 = [0, 0, 0, 0, 0, 0x1C, 0, 0x0C] @ replicate 32 7"

text \<open>A file of 32 bytes whose header declares a payload of 3 bytes at \<open>0x20\<close>.\<close>

definition sample_payload_size_3 :: "byte list" where
  "sample_payload_size_3 = [1, 2, 3, 4, 0, 0x20, 0, 3] @ replicate 24 5"

text \<open>A file of exactly 31 bytes: the header and nothing else.\<close>

definition sample_header_only :: "byte list" where
  "sample_header_only = replicate 31 0"

section \<open>The CRC engines refine the reference algorithms\<close>

subsection \<open>Masks and bit tests on integers\<close>

lemma and_bit15: "(v AND 0x8000 \<noteq> 0) = bit (v::int) 15"
proof -
  have "(0x8000::int) = 2 ^ 15" by simp
  then show ?thesis by (simp only: and_exp_eq_0_iff_not_bit) simp
qed

lemma and_bit31: "(v AND 0x80000000 \<noteq> 0) = bit (v::int) 31"
proof -
  have "(0x80000000::int) = 2 ^ 31" by simp
  then show ?thesis by (simp only: and_exp_eq_0_iff_not_bit) simp
qed

lemma mask16: "(v::int) AND 0xFFFF = take_bit 16 v"
proof -
  have "(0xFFFF::int) = mask 16" by (simp add: mask_eq_exp_minus_1)
  then show ?thesis by (simp only: take_bit_eq_mask)
qed

lemma mask32: "(v::int) AND 0xFFFFFFFF = take_bit 32 v"
proof -
  have "(0xFFFFFFFF::int) = mask 32" by (simp add: mask_eq_exp_minus_1)
  then show ?thesis by (simp only: take_bit_eq_mask)
qed

lemma mask8: "(v::int) AND 0xFF = take_bit 8 v"
proof -
  have "(0xFF::int) = mask 8" by (simp add: mask_eq_exp_minus_1)
  then show ?thesis by (simp only: take_bit_eq_mask)
qed

lemma crc8_round_rel:
  "(word_of_int (crc8_round v) :: 16 word) = crc8_ref_round (word_of_int v)"
  by (simp add: crc8_round_def crc8_ref_round_def and_bit15 bit_word_of_int_iff
      push_bit_eq_mult of_int_xor_eq)

lemma repeat_crc8_round_rel:
  "(word_of_int (repeat n crc8_round v) :: 16 word) = repeat n crc8_ref_round (word_of_int v)"
  by (induction n arbitrary: v) (simp_all add: crc8_round_rel)

lemma crc8_step_rel:
  "crc8_step v b = uint (crc8_ref_step (word_of_int v) b)"
proof -
  have "(word_of_int (v XOR push_bit 8 (uint b)) :: 16 word) = word_of_int v XOR push_bit 8 (ucast b)"
    by (simp add: push_bit_eq_mult of_int_xor_eq)
  then have "(word_of_int (repeat 8 crc8_round (v XOR push_bit 8 (uint b))) :: 16 word)
      = crc8_ref_step (word_of_int v) b"
    by (simp only: repeat_crc8_round_rel crc8_ref_step_def)
  then have "uint (crc8_ref_step (word_of_int v) b) = take_bit 16 (repeat 8 crc8_round (v XOR push_bit 8 (uint b)))"
    by (simp only: uint_word_of_int_eq [symmetric, where 'a=16, simplified])
  then show ?thesis
    by (simp only: crc8_step_def mask16)
qed

lemma foldl_crc8_step_rel:
  "foldl crc8_step (uint acc) data = uint (foldl crc8_ref_step acc data)"
proof (induction data arbitrary: acc)
  case Nil
  show ?case by simp
next
  case (Cons b data)
  have "crc8_step (uint acc) b = uint (crc8_ref_step acc b)"
    by (simp add: crc8_step_rel)
  then show ?case using Cons.IH [of "crc8_ref_step acc b"] by simp
qed

lemma crc8_final_rel:
  "drop_bit 8 (uint (w :: 16 word)) AND 0xFF = uint (ucast (drop_bit 8 w) :: byte)"
proof -
  have "take_bit 16 (uint w) = uint w"
    using uint_lt2p [of w] by (simp add: take_bit_int_eq_self)
  then show ?thesis
    by (simp add: mask8 unsigned_drop_bit_eq ucast_eq uint_word_of_int_eq)
qed

text \<open>
  Claim C1. For every byte sequence, \<open>crc8\<close> returns the value of the reference
  bit-serial algorithm with its 16-bit accumulator; masking once per input byte, as the
  code does, gives the same result as masking after every shift. The CRC-8 of the empty
  sequence is 0.
\<close>

theorem crc8_refines_reference: "crc8 data = uint (crc8_ref data) \<and> crc8 [] = 0"
proof
  have "foldl crc8_step 0 data = uint (foldl crc8_ref_step 0 data)"
    using foldl_crc8_step_rel [of 0 data] by simp
  then show "crc8 data = uint (crc8_ref data)"
    by (simp only: crc8_def crc8_ref_def crc8_final_rel)
  show "crc8 [] = 0" by (simp add: crc8_def)
qed


lemma crc32_round_rel:
  "(word_of_int (crc32_round poly v) :: 32 word) = crc32_ref_round (word_of_int poly) (word_of_int v)"
proof -
  have "(word_of_int (take_bit 32 k) :: 32 word) = word_of_int k" for k
    by (simp add: word_of_int_eq_iff)
  then show ?thesis
    by (simp add: crc32_round_def crc32_ref_round_def and_bit31 bit_word_of_int_iff
      push_bit_eq_mult of_int_xor_eq mask32)
qed

lemma crc32_round_range: "crc32_round poly v = uint (word_of_int (crc32_round poly v) :: 32 word)"
  by (simp add: crc32_round_def mask32 uint_word_of_int_eq)

lemma repeat_crc32_round_rel:
  "(word_of_int (repeat n (crc32_round poly) v) :: 32 word)
     = repeat n (crc32_ref_round (word_of_int poly)) (word_of_int v)"
  by (induction n arbitrary: v) (simp_all add: crc32_round_rel)

lemma repeat_Suc_end: "repeat (Suc n) body v = body (repeat n body v)"
  by (induction n arbitrary: v) simp_all

lemma crc32_step_rel:
  "crc32_step poly v b = uint (crc32_ref_step (word_of_int poly) (word_of_int v) b)"
proof -
  have "(word_of_int (v XOR push_bit 24 (uint b)) :: 32 word) = word_of_int v XOR push_bit 24 (ucast b)"
    by (simp add: push_bit_eq_mult of_int_xor_eq)
  then have w: "(word_of_int (crc32_step poly v b) :: 32 word)
      = crc32_ref_step (word_of_int poly) (word_of_int v) b"
    by (simp only: repeat_crc32_round_rel crc32_ref_step_def crc32_step_def)
  have "crc32_step poly v b = crc32_round poly (repeat 7 (crc32_round poly) (v XOR push_bit 24 (uint b)))"
    unfolding crc32_step_def using repeat_Suc_end [of 7 "crc32_round poly"] by simp
  then have "crc32_step poly v b = uint (word_of_int (crc32_step poly v b) :: 32 word)"
    using crc32_round_range by metis
  then show ?thesis by (simp only: w)
qed

lemma foldl_crc32_step_rel:
  "foldl (crc32_step poly) (uint acc) data
     = uint (foldl (crc32_ref_step (word_of_int poly)) acc data)"
proof (induction data arbitrary: acc)
  case Nil
  show ?case by simp
next
  case (Cons b data)
  have "crc32_step poly (uint acc) b = uint (crc32_ref_step (word_of_int poly) acc b)"
    by (simp add: crc32_step_rel)
  then show ?case using Cons.IH [of "crc32_ref_step (word_of_int poly) acc b"] by simp
qed

lemma foldl_crc32_step_nonempty:
  "data \<noteq> [] \<Longrightarrow> foldl (crc32_step poly) init data
     = uint (foldl (crc32_ref_step (word_of_int poly)) (word_of_int init) data)"
proof (cases data)
  case Nil
  assume "data \<noteq> []"
  with Nil show ?thesis by simp
next
  case (Cons b rest)
  show ?thesis
    unfolding Cons
    using foldl_crc32_step_rel [of poly "crc32_ref_step (word_of_int poly) (word_of_int init) b" rest]
    by (simp add: crc32_step_rel [symmetric])
qed

lemma uint32_of_int_in_range: "0 \<le> k \<Longrightarrow> k < 2 ^ 32 \<Longrightarrow> uint (word_of_int k :: 32 word) = k"
  by (simp add: uint_word_of_int_eq take_bit_int_eq_self)

lemma foldl_crc32_step_ref:
  assumes "data = [] \<longrightarrow> 0 \<le> init \<and> init < 2 ^ 32"
  shows "foldl (crc32_step poly) init data
     = uint (foldl (crc32_ref_step (word_of_int poly)) (word_of_int init) data)"
proof (cases "data = []")
  case True
  with assms show ?thesis by (simp add: uint32_of_int_in_range)
next
  case False
  then show ?thesis by (rule foldl_crc32_step_nonempty)
qed

text \<open>
  Claim C2, amended. For every byte sequence and every polynomial, whenever the output
  XOR mask is a 32-bit value and, for the empty sequence, the initial value is one too,
  \<open>crc32\<close> returns the value of the reference algorithm with its 32-bit accumulator,
  and that value is a 32-bit value. For the empty sequence the result is
  \<open>init XOR xorout\<close>, whatever the parameters are.
\<close>

theorem crc32_refines_reference:
  assumes "0 \<le> xorout" and "xorout < 2 ^ 32"
    and "data = [] \<longrightarrow> 0 \<le> init \<and> init < 2 ^ 32"
  shows "crc32 data poly init xorout = crc32_ref data poly init xorout
    \<and> 0 \<le> crc32 data poly init xorout \<and> crc32 data poly init xorout < 2 ^ 32
    \<and> crc32 [] poly init' xorout' = init' XOR xorout'"
proof -
  have x: "xorout = uint (word_of_int xorout :: 32 word)"
    using assms(1,2) by (simp add: uint32_of_int_in_range)
  have "crc32 data poly init xorout
      = uint (foldl (crc32_ref_step (word_of_int poly)) (word_of_int init) data) XOR uint (word_of_int xorout :: 32 word)"
    unfolding crc32_def using foldl_crc32_step_ref [OF assms(3)] x by simp
  also have "\<dots> = crc32_ref data poly init xorout"
    by (simp add: crc32_ref_def crc32_ref_word_def unsigned_xor_eq)
  finally have e: "crc32 data poly init xorout = crc32_ref data poly init xorout" .
  have "0 \<le> crc32_ref data poly init xorout" "crc32_ref data poly init xorout < 2 ^ 32"
    unfolding crc32_ref_def using uint_lt2p [where ?'a = 32] by simp_all
  with e show ?thesis by (simp add: crc32_def)
qed

theorem crc32_refines_reference_witness:
  "(0::int) \<le> 0xFFFFFFFF \<and> (0xFFFFFFFF::int) < 2 ^ 32
   \<and> crc32 [1, 2, 3] 0x04C11DB7 0x100000000 0xFFFFFFFF
       = crc32_ref [1, 2, 3] 0x04C11DB7 0x100000000 0xFFFFFFFF
   \<and> crc32 [1, 2, 3] 0x04C11DB7 0x100000000 0xFFFFFFFF < 2 ^ 32
   \<and> (0::int) \<le> 0x12345678 \<and> (0x12345678::int) < 2 ^ 32
   \<and> crc32 [] 0x04C11DB7 0x12345678 0xFFFFFFFF
       = crc32_ref [] 0x04C11DB7 0x12345678 0xFFFFFFFF
   \<and> crc32 [] 0x04C11DB7 0x12345678 0xFFFFFFFF < 2 ^ 32"
proof -
  have h1: "(0::int) \<le> 0xFFFFFFFF" and h2: "(0xFFFFFFFF::int) < 2 ^ 32"
    and h3: "([1, 2, 3] :: byte list) = []
               \<longrightarrow> (0::int) \<le> 0x100000000 \<and> (0x100000000::int) < 2 ^ 32"
    and h4: "(0::int) \<le> 0x12345678" and h5: "(0x12345678::int) < 2 ^ 32"
    and h6: "([] :: byte list) = []
               \<longrightarrow> (0::int) \<le> 0x12345678 \<and> (0x12345678::int) < 2 ^ 32"
    by simp_all
  from crc32_refines_reference [OF h1 h2 h3, of "0x04C11DB7"]
    crc32_refines_reference [OF h1 h2 h6, of "0x04C11DB7"] h1 h2 h4 h5
  show ?thesis by blast
qed

text \<open>
  Claim C2 as stated fails: with an output XOR mask of 33 bits the code returns a value
  that is neither the reference value nor a 32-bit value.
\<close>

theorem crc32_unmasked_counterexample:
  "crc32 [] 0x04C11DB7 0 0x100000000 \<noteq> crc32_ref [] 0x04C11DB7 0 0x100000000
   \<and> \<not> crc32 [] 0x04C11DB7 0 0x100000000 < 2 ^ 32"
  by (simp add: crc32_def crc32_ref_def crc32_ref_word_def)

text \<open>
  Claim C9. For every byte sequence and all parameters, the result with output XOR mask
  \<open>xorout\<close> is the result with mask 0, XORed with \<open>xorout\<close>.
\<close>

theorem crc32_xorout_linear:
  "crc32 data poly init xorout = crc32 data poly init 0 XOR xorout"
  by (simp add: crc32_def)


section \<open>The orchestrator in closed form\<close>

subsection \<open>Writing into a byte sequence\<close>

lemma length_overwrite:
  "bs \<noteq> [] \<Longrightarrow> length (overwrite p bs c) = max (length c) (p + length bs)"
  by (auto simp: overwrite_def Let_def)

lemma overwrite_inside:
  "bs \<noteq> [] \<Longrightarrow> p \<le> length c \<Longrightarrow> overwrite p bs c = take p c @ bs @ drop (p + length bs) c"
  by (simp add: overwrite_def)

lemma overwrite_beyond:
  "bs \<noteq> [] \<Longrightarrow> length c \<le> p \<Longrightarrow> overwrite p bs c = c @ replicate (p - length c) 0 @ bs"
  by (simp add: overwrite_def)

lemma nth_overwrite:
  assumes "bs \<noteq> []" and "i < max (length c) (p + length bs)"
  shows "overwrite p bs c ! i =
     (if i < p then (if i < length c then c ! i else 0)
      else if i < p + length bs then bs ! (i - p) else c ! i)"
proof (cases "p \<le> length c")
  case True
  with assms show ?thesis
    by (auto simp: overwrite_inside nth_append min_def)
next
  case False
  with assms show ?thesis
    by (auto simp: overwrite_beyond nth_append)
qed

lemma take_overwrite: "n \<le> p \<Longrightarrow> n \<le> length c \<Longrightarrow> take n (overwrite p bs c) = take n c"
  by (auto simp: overwrite_def Let_def)

lemma crc8_range: "0 \<le> crc8 data \<and> crc8 data < 256"
proof -
  have "crc8 data = take_bit 8 (drop_bit 8 (foldl crc8_step 0 data))"
    by (simp add: crc8_def mask8)
  moreover have "take_bit 8 k < 256" "0 \<le> take_bit 8 k" for k :: int
    using take_bit_int_less_exp [of 8 k] by simp_all
  ultimately show ?thesis by simp
qed

lemma bytes_of_crc8: "bytes_of [crc8 header] = Inr [word_of_int (crc8 header)]"
  using crc8_range [of header] by (simp add: bytes_of_def)

lemma fix_header_crc8_short:
  "length disk < 0x1F \<Longrightarrow> fix_header_crc8 (f_open disk) = Inl HeaderTooSmall"
  by (simp add: fix_header_crc8_def f_open_def f_seek_def f_read_def Let_def)

lemma fix_header_crc8_long:
  "0x1F \<le> length disk \<Longrightarrow> fix_header_crc8 (f_open disk)
     = Inr \<lparr>content = overwrite 0x1F [word_of_int (crc8 (take 0x1F disk))] disk, pos = 0x20\<rparr>"
  by (simp add: fix_header_crc8_def f_open_def f_seek_def f_read_def f_write_def Let_def
      bytes_of_crc8)


lemma unpack_be_u16_length: "unpack_be_u16 bs = Inr v \<Longrightarrow> length bs = 2"
  by (auto simp: unpack_be_u16_def split: list.splits)

lemma payload_descriptor_SomeD:
  assumes "payload_descriptor c = Some (off, sz)"
  shows "unpack_be_u16 (take 2 (drop 4 c)) = Inr off"
    and "unpack_be_u16 (take 2 (drop 6 c)) = Inr sz"
  using assms by (auto simp: payload_descriptor_def split: sum.splits)

lemma crc32_default_range: "0 \<le> crc32_default data \<and> crc32_default data < 2 ^ 32"
proof -
  have "crc32_default data
      = uint (foldl (crc32_ref_step (word_of_int 0x04C11DB7)) (word_of_int 0) data)"
    unfolding crc32_default_def crc32_def
    using foldl_crc32_step_ref [of data 0 "0x04C11DB7"] by simp
  then show ?thesis
    using uint_lt2p [of "foldl (crc32_ref_step (word_of_int 0x04C11DB7)) (word_of_int 0) data"]
    by simp
qed

lemma pack_le_u32_crc32: "pack_le_u32 (crc32_default data) = Inr (le_u32 (crc32_default data))"
  using crc32_default_range [of data] by (simp add: pack_le_u32_def)

lemma fix_payload_crc32_closed:
  assumes "payload_descriptor (content f) = Some (off, sz)"
  shows "fix_payload_crc32 f =
     (if sz < 4 then (Failed PayloadSizeTooSmall, content f)
      else if length (take (sz - 4) (drop off (content f))) \<noteq> sz - 4
      then (Failed PayloadTruncated, content f)
      else (Success, overwrite (off + sz - 4)
              (le_u32 (crc32_default (take (sz - 4) (drop off (content f))))) (content f)))"
proof -
  note d = payload_descriptor_SomeD [OF assms]
  have l: "length (take 2 (drop 4 (content f))) = 2"
    using d(1) by (rule unpack_be_u16_length)
  have r1: "f_read 2 (f_seek 0x4 f) = (take 2 (drop 4 (content f)), f\<lparr>pos := 6\<rparr>)"
    using l by (simp add: f_read_def f_seek_def Let_def)
  have r2: "f_read 2 (f\<lparr>pos := 6\<rparr>) = (take 2 (drop 6 (content f)), f\<lparr>pos := 6 + length (take 2 (drop 6 (content f)))\<rparr>)"
    by (simp add: f_read_def Let_def)
  show ?thesis
    unfolding fix_payload_crc32_def r1
    by (simp add: d r2 pack_le_u32_crc32 Let_def f_read_def f_seek_def f_write_def)
qed

lemma take_drop_overwrite:
  "i + n \<le> p \<Longrightarrow> i + n \<le> length c \<Longrightarrow> take n (drop i (overwrite p bs c)) = take n (drop i c)"
proof -
  assume a: "i + n \<le> p" "i + n \<le> length c"
  have "take n (drop i xs) = drop i (take (i + n) xs)" for xs :: "byte list"
    by (simp add: drop_take)
  with a show ?thesis by (simp add: take_overwrite)
qed

lemma payload_descriptor_overwrite:
  "8 \<le> p \<Longrightarrow> 8 \<le> length c \<Longrightarrow> payload_descriptor (overwrite p bs c) = payload_descriptor c"
  by (simp add: payload_descriptor_def take_drop_overwrite)

lemma take2_drop: "i + 2 \<le> length xs \<Longrightarrow> take 2 (drop i xs) = [xs ! i, xs ! Suc i]"
proof -
  assume a: "i + 2 \<le> length xs"
  have "take 2 (drop i xs) = take (Suc (Suc 0)) (drop i xs)" by (simp add: numeral_2_eq_2)
  also have "\<dots> = [xs ! i, xs ! Suc i]"
    using a by (simp add: take_Suc_conv_app_nth)
  finally show ?thesis .
qed

lemma payload_descriptor_long:
  assumes "8 \<le> length c"
  shows "\<exists>off sz. payload_descriptor c = Some (off, sz)"
proof -
  have "take 2 (drop 4 c) = [c ! 4, c ! Suc 4]" "take 2 (drop 6 c) = [c ! 6, c ! Suc 6]"
    using assms by (simp_all add: take2_drop)
  then show ?thesis
    by (simp add: payload_descriptor_def unpack_be_u16_def)
qed

lemma fix_firmware_checksum_short:
  "length disk < 0x1F \<Longrightarrow> fix_firmware_checksum disk = (Failed HeaderTooSmall, disk)"
  by (simp add: fix_firmware_checksum_def fix_header_crc8_short)

lemma fix_firmware_checksum_long:
  assumes "0x1F \<le> length disk" and "payload_descriptor disk = Some (off, sz)"
  shows "fix_firmware_checksum disk =
     (if sz < 4 then (Failed PayloadSizeTooSmall, header_written disk)
      else if length (take (sz - 4) (drop off (header_written disk))) \<noteq> sz - 4
      then (Failed PayloadTruncated, header_written disk)
      else (Success, overwrite (off + sz - 4)
              (le_u32 (crc32_default (take (sz - 4) (drop off (header_written disk)))))
              (header_written disk)))"
proof -
  have "payload_descriptor (header_written disk) = Some (off, sz)"
    using assms by (simp add: header_written_def payload_descriptor_overwrite)
  then show ?thesis
    using assms(1) fix_payload_crc32_closed [of "\<lparr>content = header_written disk, pos = 0x20\<rparr>" off sz]
    by (simp add: fix_firmware_checksum_def fix_header_crc8_long header_written_def)
qed


subsection \<open>The file after the header step\<close>

lemma length_header_written:
  "0x1F \<le> length disk \<Longrightarrow> length (header_written disk) = max (length disk) 0x20"
  by (simp add: header_written_def length_overwrite)

lemma take_header_written:
  "0x1F \<le> length disk \<Longrightarrow> take 0x1F (header_written disk) = take 0x1F disk"
  by (simp add: header_written_def take_overwrite)

lemma nth_header_written_crc8:
  "0x1F \<le> length disk \<Longrightarrow> header_written disk ! 0x1F = word_of_int (crc8 (take 0x1F disk))"
  by (simp add: header_written_def nth_overwrite)

lemma nth_header_written_other:
  "i < length disk \<Longrightarrow> i \<noteq> 0x1F \<Longrightarrow> header_written disk ! i = disk ! i"
  by (simp add: header_written_def nth_overwrite)

lemma uint_crc8_byte: "uint (word_of_int (crc8 data) :: byte) = crc8 data"
  using crc8_range [of data] by (simp add: uint_word_of_int_eq take_bit_int_eq_self)

lemma overwrite_same:
  assumes "p < length c" and "c ! p = b"
  shows "overwrite p [b] c = c"
proof (rule nth_equalityI)
  show "length (overwrite p [b] c) = length c"
    using assms(1) by (simp add: length_overwrite)
next
  fix i assume "i < length (overwrite p [b] c)"
  then have "i < max (length c) (p + length [b])" by (simp add: length_overwrite)
  then show "overwrite p [b] c ! i = c ! i"
    using assms by (cases "i = p") (auto simp: nth_overwrite)
qed

lemma overwrite_overwrite:
  assumes "bs \<noteq> []"
  shows "overwrite p bs (overwrite p bs c) = overwrite p bs c"
proof (rule nth_equalityI)
  show "length (overwrite p bs (overwrite p bs c)) = length (overwrite p bs c)"
    using assms by (simp add: length_overwrite)
next
  fix i assume "i < length (overwrite p bs (overwrite p bs c))"
  then have i: "i < max (length c) (p + length bs)"
    using assms by (simp add: length_overwrite)
  then have "i < max (length (overwrite p bs c)) (p + length bs)"
    using assms by (simp add: length_overwrite)
  then show "overwrite p bs (overwrite p bs c) ! i = overwrite p bs c ! i"
    using assms i by (auto simp: nth_overwrite length_overwrite)
qed

lemma take_drop_overwrite_written:
  "bs \<noteq> [] \<Longrightarrow> take (length bs) (drop p (overwrite p bs c)) = bs"
  by (cases "p \<le> length c") (simp_all add: overwrite_inside overwrite_beyond)

lemma header_written_idem:
  assumes "0x1F \<le> length disk"
  shows "header_written (header_written disk) = header_written disk"
proof -
  let ?hw = "header_written disk"
  have "header_written ?hw = overwrite 0x1F [word_of_int (crc8 (take 0x1F disk))] ?hw"
    using assms by (simp add: header_written_def [of ?hw] take_header_written)
  also have "\<dots> = ?hw"
    using assms by (intro overwrite_same) (simp_all add: length_header_written nth_header_written_crc8)
  finally show ?thesis .
qed

lemma length_le_u32: "length (le_u32 v) = 4"
  by (simp add: le_u32_def)

lemma le_u32_nonempty: "le_u32 v \<noteq> []"
  by (simp add: le_u32_def)


section \<open>Properties of the patch orchestrator\<close>

lemma fix_success_long:
  "fix_firmware_checksum disk = (Success, disk') \<Longrightarrow> 0x1F \<le> length disk"
  by (rule ccontr) (simp add: fix_firmware_checksum_short)

text \<open>
  Claim C8. For every file shorter than 31 bytes the run fails with the size-validation
  error of the header, and the bytes on disk afterwards are the bytes of the file: nothing
  has been written.
\<close>

theorem header_too_short_no_write:
  "length disk < 0x1F \<Longrightarrow> fix_firmware_checksum disk = (Failed HeaderTooSmall, disk)"
  by (rule fix_firmware_checksum_short)

theorem header_too_short_no_write_witness:
  "length (replicate 30 (0::byte)) < 0x1F
   \<and> fix_firmware_checksum (replicate 30 0) = (Failed HeaderTooSmall, replicate 30 0)"
  using header_too_short_no_write [of "replicate 30 0"] by simp

text \<open>
  Claim C7. For every file that holds the 31 header bytes, the header step succeeds and
  leaves a file object whose byte at \<open>0x1F\<close> is the CRC-8 of the header; the payload
  descriptor is read and validated from that file object. So for every such file that
  declares a payload size below 4 the run fails with the size-validation error of the
  payload, byte \<open>0x1F\<close> holds the new CRC-8 and every other byte of the file is as it
  was (a file of exactly 31 bytes has gained the byte at \<open>0x1F\<close>).
\<close>

theorem crc8_committed_before_payload_validation:
  assumes "0x1F \<le> length disk"
  shows "(\<exists>f3. fix_header_crc8 (f_open disk) = Inr f3
            \<and> 0x1F < length (content f3)
            \<and> uint (content f3 ! 0x1F) = crc8 (take 0x1F disk)
            \<and> fix_firmware_checksum disk = fix_payload_crc32 f3)
    \<and> (payload_descriptor disk = Some (off, sz) \<and> sz < 4 \<longrightarrow>
         (\<exists>disk'. fix_firmware_checksum disk = (Failed PayloadSizeTooSmall, disk')
            \<and> uint (disk' ! 0x1F) = crc8 (take 0x1F disk)
            \<and> (\<forall>i < length disk. i \<noteq> 0x1F \<longrightarrow> disk' ! i = disk ! i)
            \<and> length disk' = max (length disk) 0x20))"
proof (intro conjI impI)
  let ?f3 = "\<lparr>content = header_written disk, pos = 0x20\<rparr>"
  have "fix_header_crc8 (f_open disk) = Inr ?f3"
    using assms by (simp add: fix_header_crc8_long header_written_def)
  moreover have "0x1F < length (content ?f3)"
    using assms by (simp add: length_header_written)
  moreover have "uint (content ?f3 ! 0x1F) = crc8 (take 0x1F disk)"
    using assms by (simp add: nth_header_written_crc8 uint_crc8_byte)
  ultimately show "\<exists>f3. fix_header_crc8 (f_open disk) = Inr f3
            \<and> 0x1F < length (content f3)
            \<and> uint (content f3 ! 0x1F) = crc8 (take 0x1F disk)
            \<and> fix_firmware_checksum disk = fix_payload_crc32 f3"
    by (intro exI [of _ ?f3]) (simp add: fix_firmware_checksum_def)
next
  assume a: "payload_descriptor disk = Some (off, sz) \<and> sz < 4"
  then have "fix_firmware_checksum disk = (Failed PayloadSizeTooSmall, header_written disk)"
    using assms by (simp add: fix_firmware_checksum_long)
  moreover have "uint (header_written disk ! 0x1F) = crc8 (take 0x1F disk)"
    using assms by (simp add: nth_header_written_crc8 uint_crc8_byte)
  moreover have "\<forall>i < length disk. i \<noteq> 0x1F \<longrightarrow> header_written disk ! i = disk ! i"
    by (simp add: nth_header_written_other)
  moreover have "length (header_written disk) = max (length disk) 0x20"
    using assms by (rule length_header_written)
  ultimately show "\<exists>disk'. fix_firmware_checksum disk = (Failed PayloadSizeTooSmall, disk')
            \<and> uint (disk' ! 0x1F) = crc8 (take 0x1F disk)
            \<and> (\<forall>i < length disk. i \<noteq> 0x1F \<longrightarrow> disk' ! i = disk ! i)
            \<and> length disk' = max (length disk) 0x20"
    by blast
qed

text \<open>
  Claim C3, amended. For every file on which the run succeeds and whose CRC-32 slot starts
  at or behind offset \<open>0x20\<close>, the CRC-8 recomputed over bytes \<open>[0, 0x1F)\<close> of the
  patched file is the byte stored at offset \<open>0x1F\<close> of that file.
\<close>

theorem header_crc8_roundtrip:
  assumes "fix_firmware_checksum disk = (Success, disk')"
    and "payload_descriptor disk = Some (off, sz)"
    and "0x20 \<le> off + sz - 4"
  shows "0x1F < length disk' \<and> crc8 (take 0x1F disk') = uint (disk' ! 0x1F)"
proof -
  let ?hw = "header_written disk"
  let ?packed = "le_u32 (crc32_default (take (sz - 4) (drop off ?hw)))"
  have long: "0x1F \<le> length disk" using assms(1) by (rule fix_success_long)
  have d: "disk' = overwrite (off + sz - 4) ?packed ?hw"
    using assms(1) fix_firmware_checksum_long [OF long assms(2)]
    by (simp split: if_splits)
  have len: "0x1F < length disk'"
    using long unfolding d by (simp add: length_overwrite le_u32_nonempty length_header_written)
  have "take 0x1F disk' = take 0x1F ?hw"
    unfolding d using assms(3) long by (simp add: take_overwrite length_header_written)
  then have t: "take 0x1F disk' = take 0x1F disk"
    using long by (simp add: take_header_written)
  have "disk' ! 0x1F = ?hw ! 0x1F"
    unfolding d using assms(3) long
    by (simp add: nth_overwrite le_u32_nonempty length_header_written max_def)
  then have "uint (disk' ! 0x1F) = crc8 (take 0x1F disk)"
    using long by (simp add: nth_header_written_crc8 uint_crc8_byte)
  with t len show ?thesis by simp
qed


lemma take_drop_overwrite_before:
  assumes "i + n \<le> p"
    and "length (take n (drop i c)) = n"
  shows "take n (drop i (overwrite p bs c)) = take n (drop i c)"
proof (cases "n = 0")
  case True
  then show ?thesis by simp
next
  case False
  with assms(2) have "i + n \<le> length c" by simp
  with assms(1) show ?thesis by (rule take_drop_overwrite)
qed

lemma header_written_fixed:
  assumes "0x1F < length c" and "c ! 0x1F = word_of_int (crc8 (take 0x1F c))"
  shows "header_written c = c"
  unfolding header_written_def using assms by (intro overwrite_same) simp_all

text \<open>
  Claim C4, amended. For every file on which the run fails, and for every file on which
  it succeeds with a CRC-32 slot that starts at or behind offset \<open>0x20\<close>, a second run
  on the resulting file has the same outcome and changes no byte.
\<close>

theorem patch_twice_same:
  assumes run: "fix_firmware_checksum disk = (r, disk')"
    and clear: "\<And>off sz. payload_descriptor disk = Some (off, sz) \<Longrightarrow> r = Success
                  \<Longrightarrow> 0x20 \<le> off + sz - 4"
  shows "fix_firmware_checksum disk' = (r, disk')"
proof (cases "length disk < 0x1F")
  case True
  with run show ?thesis by (simp add: fix_firmware_checksum_short)
next
  case False
  then have long: "0x1F \<le> length disk" by simp
  then obtain off sz where d: "payload_descriptor disk = Some (off, sz)"
    using payload_descriptor_long [of disk] by auto
  let ?hw = "header_written disk"
  let ?payload = "take (sz - 4) (drop off ?hw)"
  let ?p = "off + sz - 4"
  note closed = fix_firmware_checksum_long [OF long d]
  have hw_len: "0x1F \<le> length ?hw" "8 \<le> length ?hw" "0x1F < length ?hw"
    using long by (simp_all add: length_header_written)
  have hw_d: "payload_descriptor ?hw = Some (off, sz)"
    using long d by (simp add: header_written_def payload_descriptor_overwrite)
  have hw_hw: "header_written ?hw = ?hw"
    using long by (rule header_written_idem)
  note closed_hw = fix_firmware_checksum_long [OF hw_len(1) hw_d, unfolded hw_hw]
  show ?thesis
  proof (cases "sz < 4 \<or> length ?payload \<noteq> sz - 4")
    case True
    then have "disk' = ?hw" and "fix_firmware_checksum ?hw = (r, ?hw)"
      using run closed closed_hw by (auto split: if_splits)
    then show ?thesis by simp
  next
    case False
    then have ok: "\<not> sz < 4" "length ?payload = sz - 4" by simp_all
    let ?packed = "le_u32 (crc32_default ?payload)"
    have r: "r = Success" and d': "disk' = overwrite ?p ?packed ?hw"
      using run closed ok by simp_all
    have p: "0x20 \<le> ?p" using clear [OF d r] .
    have len': "0x1F < length disk'"
      unfolding d' using hw_len(3) by (simp add: length_overwrite le_u32_nonempty)
    have "take 0x1F disk' = take 0x1F ?hw"
      unfolding d' using p hw_len by (simp add: take_overwrite)
    then have t: "take 0x1F disk' = take 0x1F disk"
      using long by (simp add: take_header_written)
    have "disk' ! 0x1F = ?hw ! 0x1F"
      unfolding d' using p hw_len
      by (simp add: nth_overwrite le_u32_nonempty max_def)
    then have "disk' ! 0x1F = word_of_int (crc8 (take 0x1F disk'))"
      using long t by (simp add: nth_header_written_crc8)
    with len' have hw': "header_written disk' = disk'"
      by (rule header_written_fixed)
    have desc': "payload_descriptor disk' = Some (off, sz)"
      unfolding d' using p hw_len hw_d by (simp add: payload_descriptor_overwrite)
    have pay': "take (sz - 4) (drop off disk') = ?payload"
      unfolding d' using ok by (intro take_drop_overwrite_before) simp_all
    have "fix_firmware_checksum disk' = (Success, overwrite ?p ?packed disk')"
      using fix_firmware_checksum_long [OF _ desc'] len' ok
      by (simp add: hw' pay')
    also have "overwrite ?p ?packed disk' = disk'"
      unfolding d' by (simp add: overwrite_overwrite le_u32_nonempty)
    finally show ?thesis using r by simp
  qed
qed


text \<open>
  Claim C10. For every file on which the run succeeds and whose payload data region
  contains offset \<open>0x1F\<close>, the four bytes in the CRC-32 slot of the patched file are the
  CRC-32 of the payload data as read from the file after the CRC-8 byte was written: the
  byte of that data at file offset \<open>0x1F\<close> is the new CRC-8, and the data is the payload
  data of the patched file.
\<close>

theorem payload_crc32_covers_new_crc8:
  assumes run: "fix_firmware_checksum disk = (Success, disk')"
    and d: "payload_descriptor disk = Some (off, sz)"
    and inside: "off \<le> 0x1F" "0x1F < off + sz - 4"
  shows "take 4 (drop (off + sz - 4) disk')
           = le_u32 (crc32_default (take (sz - 4) (drop off (header_written disk))))
    \<and> length (take (sz - 4) (drop off (header_written disk))) = sz - 4
    \<and> uint (take (sz - 4) (drop off (header_written disk)) ! (0x1F - off))
           = crc8 (take 0x1F disk)
    \<and> header_written disk
           = take 0x1F disk @ [word_of_int (crc8 (take 0x1F disk))] @ drop 0x20 disk
    \<and> take (sz - 4) (drop off disk') = take (sz - 4) (drop off (header_written disk))"
proof -
  let ?hw = "header_written disk"
  let ?payload = "take (sz - 4) (drop off ?hw)"
  let ?packed = "le_u32 (crc32_default ?payload)"
  have long: "0x1F \<le> length disk" using run by (rule fix_success_long)
  have ok: "length ?payload = sz - 4"
    and d': "disk' = overwrite (off + sz - 4) ?packed ?hw"
    using run fix_firmware_checksum_long [OF long d] by (simp_all split: if_splits)
  have "take (length ?packed) (drop (off + sz - 4) disk') = ?packed"
    unfolding d' by (rule take_drop_overwrite_written) (rule le_u32_nonempty)
  then have slot: "take 4 (drop (off + sz - 4) disk') = ?packed"
    by (simp add: length_le_u32)
  have "0x1F - off < length ?payload" using ok inside by simp
  moreover have "off + (0x1F - off) = 0x1F" using inside(1) by simp
  moreover have "off \<le> length ?hw"
    using inside(1) long by (simp add: length_header_written)
  ultimately have "?payload ! (0x1F - off) = ?hw ! 0x1F"
    by simp
  then have byte: "uint (?payload ! (0x1F - off)) = crc8 (take 0x1F disk)"
    using long by (simp add: nth_header_written_crc8 uint_crc8_byte)
  have explicit: "?hw = take 0x1F disk @ [word_of_int (crc8 (take 0x1F disk))] @ drop 0x20 disk"
    using long by (simp add: header_written_def overwrite_inside)
  have same: "take (sz - 4) (drop off disk') = ?payload"
    unfolding d' using ok inside by (intro take_drop_overwrite_before) simp_all
  from slot ok byte explicit same show ?thesis by blast
qed

text \<open>
  Claim C6, amended. The run never makes the file shorter. The length is unchanged when
  the file is shorter than 31 bytes (nothing is written), when it has at least 32 bytes
  and the run fails, and when it has at least 32 bytes and the declared payload region
  lies inside the file. A file of exactly 31 bytes has at least 32 bytes afterwards,
  because the CRC-8 byte is written at offset \<open>0x1F\<close>.
\<close>

theorem file_length_after_patch:
  "length disk \<le> length (snd (fix_firmware_checksum disk))
   \<and> (length disk < 0x1F \<longrightarrow> snd (fix_firmware_checksum disk) = disk)
   \<and> (0x20 \<le> length disk \<and> fst (fix_firmware_checksum disk) \<noteq> Success
        \<longrightarrow> length (snd (fix_firmware_checksum disk)) = length disk)
   \<and> (0x20 \<le> length disk \<and> payload_descriptor disk = Some (off, sz)
          \<and> off + sz \<le> length disk
        \<longrightarrow> length (snd (fix_firmware_checksum disk)) = length disk)
   \<and> (length disk = 0x1F \<longrightarrow> 0x20 \<le> length (snd (fix_firmware_checksum disk)))"
proof (cases "length disk < 0x1F")
  case True
  then show ?thesis by (simp add: fix_firmware_checksum_short)
next
  case False
  then have long: "0x1F \<le> length disk" by simp
  then obtain off' sz' where d: "payload_descriptor disk = Some (off', sz')"
    using payload_descriptor_long [of disk] by auto
  note closed = fix_firmware_checksum_long [OF long d]
  note hl = length_header_written [OF long]
  have 1: "length disk \<le> length (snd (fix_firmware_checksum disk))"
    by (simp add: closed hl length_overwrite le_u32_nonempty le_max_iff_disj)
  have 3: "0x20 \<le> length disk \<and> fst (fix_firmware_checksum disk) \<noteq> Success
        \<longrightarrow> length (snd (fix_firmware_checksum disk)) = length disk"
    by (simp add: closed hl)
  have 4: "0x20 \<le> length disk \<and> payload_descriptor disk = Some (off, sz)
          \<and> off + sz \<le> length disk
        \<longrightarrow> length (snd (fix_firmware_checksum disk)) = length disk"
    using d by (auto simp: closed hl length_overwrite le_u32_nonempty length_le_u32)
  have 5: "length disk = 0x1F \<longrightarrow> 0x20 \<le> length (snd (fix_firmware_checksum disk))"
    by (simp add: closed hl length_overwrite le_u32_nonempty le_max_iff_disj)
  from False 1 3 4 5 show ?thesis by blast
qed


theorem crc8_committed_before_payload_validation_witness:
  "0x1F \<le> length sample_payload_size_3
   \<and> payload_descriptor sample_payload_size_3 = Some (0x20, 3) \<and> (3::nat) < 4
   \<and> (\<exists>disk'. fix_firmware_checksum sample_payload_size_3 = (Failed PayloadSizeTooSmall, disk')
          \<and> uint (disk' ! 0x1F) = crc8 (take 0x1F sample_payload_size_3)
          \<and> (\<forall>i < length sample_payload_size_3. i \<noteq> 0x1F
                \<longrightarrow> disk' ! i = sample_payload_size_3 ! i)
          \<and> length disk' = max (length sample_payload_size_3) 0x20)"
proof -
  have h1: "0x1F \<le> length sample_payload_size_3" by code_simp
  have h2: "payload_descriptor sample_payload_size_3 = Some (0x20, 3)" by code_simp
  have h3: "(3::nat) < 4" by simp
  from crc8_committed_before_payload_validation [OF h1, of "0x20" 3] h1 h2 h3
  show ?thesis by blast
qed

theorem header_crc8_roundtrip_witness:
  "fix_firmware_checksum sample_well_formed
     = (Success, sample_well_formed [0x1F := 220, 0x24 := 129, 0x25 := 151, 0x26 := 1, 0x27 := 48])
   \<and> payload_descriptor sample_well_formed = Some (0x20, 8)
   \<and> (0x20::nat) \<le> 0x20 + 8 - 4
   \<and> crc8 (take 0x1F (sample_well_formed [0x1F := 220, 0x24 := 129, 0x25 := 151, 0x26 := 1, 0x27 := 48]))
       = uint ((sample_well_formed [0x1F := 220, 0x24 := 129, 0x25 := 151, 0x26 := 1, 0x27 := 48]) ! 0x1F)"
proof -
  have h1: "fix_firmware_checksum sample_well_formed
     = (Success, sample_well_formed [0x1F := 220, 0x24 := 129, 0x25 := 151, 0x26 := 1, 0x27 := 48])"
    by code_simp
  have h2: "payload_descriptor sample_well_formed = Some (0x20, 8)" by code_simp
  have h3: "(0x20::nat) \<le> 0x20 + 8 - 4" by simp
  from header_crc8_roundtrip [OF h1 h2 h3] h1 h2 h3 show ?thesis by blast
qed

text \<open>
  Claim C3 as stated fails: when the CRC-32 slot lies inside the header, the slot is
  written after the CRC-8 was computed, and the stored CRC-8 no longer matches the header.
\<close>

theorem header_crc8_roundtrip_counterexample:
  "fst (fix_firmware_checksum sample_slot_in_header) = Success
   \<and> crc8 (take 0x1F (snd (fix_firmware_checksum sample_slot_in_header)))
       \<noteq> uint (snd (fix_firmware_checksum sample_slot_in_header) ! 0x1F)"
  by code_simp

theorem patch_twice_same_witness:
  "fix_firmware_checksum sample_well_formed
     = (Success, sample_well_formed [0x1F := 220, 0x24 := 129, 0x25 := 151, 0x26 := 1, 0x27 := 48])
   \<and> payload_descriptor sample_well_formed = Some (0x20, 8)
   \<and> fix_firmware_checksum
         (sample_well_formed [0x1F := 220, 0x24 := 129, 0x25 := 151, 0x26 := 1, 0x27 := 48])
     = (Success, sample_well_formed [0x1F := 220, 0x24 := 129, 0x25 := 151, 0x26 := 1, 0x27 := 48])"
proof -
  have h1: "fix_firmware_checksum sample_well_formed
     = (Success, sample_well_formed [0x1F := 220, 0x24 := 129, 0x25 := 151, 0x26 := 1, 0x27 := 48])"
    by code_simp
  have h2: "payload_descriptor sample_well_formed = Some (0x20, 8)" by code_simp
  have h3: "0x20 \<le> off + sz - 4"
    if "payload_descriptor sample_well_formed = Some (off, sz)" for off sz
    using that h2 by simp
  from patch_twice_same [OF h1 h3] h1 h2 show ?thesis by blast
qed

text \<open>
  Claim C4 as stated fails: with the CRC-32 slot inside the header, the second run computes
  the CRC-8 over the header that now holds the CRC-32, and changes byte \<open>0x1F\<close>.
\<close>

theorem patch_twice_counterexample:
  "snd (fix_firmware_checksum (snd (fix_firmware_checksum sample_slot_in_header)))
     \<noteq> snd (fix_firmware_checksum sample_slot_in_header)"
  by code_simp

theorem payload_crc32_covers_new_crc8_witness:
  "fix_firmware_checksum sample_payload_over_crc8
     = (Success, sample_payload_over_crc8 [0x1F := 250, 0x24 := 181, 0x25 := 121, 0x26 := 2, 0x27 := 71])
   \<and> payload_descriptor sample_payload_over_crc8 = Some (0x1C, 0x0C)
   \<and> (0x1C::nat) \<le> 0x1F \<and> (0x1F::nat) < 0x1C + 0x0C - 4
   \<and> take 4 (drop (0x1C + 0x0C - 4)
         (sample_payload_over_crc8 [0x1F := 250, 0x24 := 181, 0x25 := 121, 0x26 := 2, 0x27 := 71]))
       = le_u32 (crc32_default (take (0x0C - 4) (drop 0x1C (header_written sample_payload_over_crc8))))
   \<and> uint (take (0x0C - 4) (drop 0x1C (header_written sample_payload_over_crc8)) ! (0x1F - 0x1C))
       = crc8 (take 0x1F sample_payload_over_crc8)
   \<and> le_u32 (crc32_default (take (0x0C - 4) (drop 0x1C (header_written sample_payload_over_crc8))))
       \<noteq> le_u32 (crc32_default (take (0x0C - 4) (drop 0x1C sample_payload_over_crc8)))"
proof -
  have h1: "fix_firmware_checksum sample_payload_over_crc8
     = (Success, sample_payload_over_crc8 [0x1F := 250, 0x24 := 181, 0x25 := 121, 0x26 := 2, 0x27 := 71])"
    by code_simp
  have h2: "payload_descriptor sample_payload_over_crc8 = Some (0x1C, 0x0C)" by code_simp
  have h3: "(0x1C::nat) \<le> 0x1F" and h4: "(0x1F::nat) < 0x1C + 0x0C - 4" by simp_all
  have h5: "le_u32 (crc32_default (take (0x0C - 4) (drop 0x1C (header_written sample_payload_over_crc8))))
       \<noteq> le_u32 (crc32_default (take (0x0C - 4) (drop 0x1C sample_payload_over_crc8)))"
    by code_simp
  from payload_crc32_covers_new_crc8 [OF h1 h2 h3 h4] h1 h2 h3 h4 h5 show ?thesis by blast
qed

theorem file_length_after_patch_witness:
  "0x20 \<le> length sample_well_formed
   \<and> payload_descriptor sample_well_formed = Some (0x20, 8)
   \<and> 0x20 + 8 \<le> length sample_well_formed
   \<and> length (snd (fix_firmware_checksum sample_well_formed)) = length sample_well_formed
   \<and> 0x20 \<le> length sample_payload_size_3
   \<and> fst (fix_firmware_checksum sample_payload_size_3) \<noteq> Success
   \<and> length (snd (fix_firmware_checksum sample_payload_size_3)) = length sample_payload_size_3
   \<and> length sample_header_only = 0x1F
   \<and> 0x20 \<le> length (snd (fix_firmware_checksum sample_header_only))"
proof -
  have h1: "0x20 \<le> length sample_well_formed" by code_simp
  have h2: "payload_descriptor sample_well_formed = Some (0x20, 8)" by code_simp
  have h3: "0x20 + 8 \<le> length sample_well_formed" by code_simp
  have h4: "0x20 \<le> length sample_payload_size_3" by code_simp
  have h5: "fst (fix_firmware_checksum sample_payload_size_3) \<noteq> Success" by code_simp
  have h6: "length sample_header_only = 0x1F" by code_simp
  from file_length_after_patch [of sample_well_formed "0x20" 8]
    file_length_after_patch [of sample_payload_size_3]
    file_length_after_patch [of sample_header_only]
    h1 h2 h3 h4 h5 h6
  show ?thesis by blast
qed

text \<open>
  Claim C6 as stated fails: a file of exactly 31 bytes passes the header check, and the
  CRC-8 byte written at offset \<open>0x1F\<close> makes it one byte longer.
\<close>

theorem file_length_counterexample:
  "length (snd (fix_firmware_checksum sample_header_only)) \<noteq> length sample_header_only"
  by code_simp

text \<open>
  Claim C5, evaluated at a file that ends at \<open>0x24\<close> and declares the payload region
  \<open>[0x20, 0x28)\<close>: the payload data is read in full, so no truncated-file error is
  raised; the run succeeds and writes the CRC-32 slot behind the old end of the file.
\<close>

theorem slot_past_end_is_written:
  "length sample_slot_past_end = 0x24
   \<and> payload_descriptor sample_slot_past_end = Some (0x20, 8)
   \<and> fix_firmware_checksum sample_slot_past_end
       = (Success, sample_slot_past_end [0x1F := 220] @ [129, 151, 1, 48])"
  by code_simp


end
